theory Spec2Isabelle
  imports Main "HOL-Library.AList" "HOL-Library.Sublist"
begin

section \<open>Configuration transmitters (src/src/config-transmitters.ts)\<close>

subsection \<open>Values and configuration objects\<close>

text \<open>
  A \<^verbatim>\<open>Config\<close> is a plain JavaScript object whose property values are strings,
  numbers, booleans or arrays of such scalars; reading a property that is not there gives
  \<^verbatim>\<open>undefined\<close>. Numbers are modelled as integers (no \<^verbatim>\<open>NaN\<close>, no
  fractions). An object is an association list in property-insertion order: the keys of
  an object are pairwise different, which is \<open>wf_config\<close>.
\<close>

datatype scalar = Str string | Num int | Bool bool

datatype jsval = Undefined | Null | Sc scalar | Arr "scalar list"

type_synonym config = "(string \<times> jsval) list"

definition wf_config :: "config \<Rightarrow> bool" where
  "wf_config c = distinct (map fst c)"

text \<open>\<^verbatim>\<open>Object.keys(c)\<close>\<close>

definition keys :: "config \<Rightarrow> string list" where
  "keys c = map fst c"

text \<open>\<^verbatim>\<open>c[key]\<close>\<close>

definition get_prop :: "config \<Rightarrow> string \<Rightarrow> jsval" where
  "get_prop c key = (case map_of c key of None \<Rightarrow> Undefined | Some v \<Rightarrow> v)"

text \<open>
  \<^verbatim>\<open>c[key] = v\<close>: an existing property keeps its position, a new one goes to the end.
\<close>

definition set_prop :: "config \<Rightarrow> string \<Rightarrow> jsval \<Rightarrow> config" where
  "set_prop c key v = AList.update key v c"

text \<open>
  Copying the own properties of \<open>src\<close> onto \<open>tgt\<close>, in the order of \<open>src\<close>, and the
  object spread \<^verbatim>\<open>{...a, ...b}\<close>, which starts from the empty object.
\<close>

definition assign :: "config \<Rightarrow> config \<Rightarrow> config" where
  "assign tgt src = fold (\<lambda>(key, v) acc. set_prop acc key v) src tgt"

definition spread :: "config list \<Rightarrow> config" where
  "spread objs = fold (\<lambda>src tgt. assign tgt src) objs []"

subsection \<open>Collaborators that are imported by the source file\<close>

text \<open>
  \<^verbatim>\<open>parseConfig\<close> and \<^verbatim>\<open>serializeConfig\<close> (from \<^verbatim>\<open>./config\<close>) and
  \<^verbatim>\<open>isNone\<close> (from \<^verbatim>\<open>./util/util\<close>) are imported by the source file and are
  parameters of the model. \<^verbatim>\<open>parseConfig\<close> is also called with \<^verbatim>\<open>null\<close>, which is
  \<open>None\<close>.
\<close>

record deps =
  parseConfig :: "string option \<Rightarrow> config"
  serializeConfig :: "config \<Rightarrow> string"
  isNone :: "jsval \<Rightarrow> bool"

text \<open>
  The argument of \<^verbatim>\<open>withDefaults\<close>, \<^verbatim>\<open>update\<close> and \<^verbatim>\<open>updateIfAbsent\<close>:
  declared \<^verbatim>\<open>Config | string\<close>, tested with \<^verbatim>\<open>!input\<close>, so \<^verbatim>\<open>null\<close> and
  \<^verbatim>\<open>undefined\<close> are inputs too. An object is never falsy, the empty string is.
\<close>

datatype input = InNull | InUndefined | InString string | InConfig config

fun falsy :: "input \<Rightarrow> bool" where
  "falsy InNull = True"
| "falsy InUndefined = True"
| "falsy (InString s) = (s = [])"
| "falsy (InConfig c) = False"

text \<open>
  \<^verbatim>\<open>typeof input === "string" ? parseConfig(input) : input\<close>, read as the properties a
  later spread or loop sees: \<^verbatim>\<open>null\<close> and \<^verbatim>\<open>undefined\<close> have none.
\<close>

fun input_config :: "deps \<Rightarrow> input \<Rightarrow> config" where
  "input_config E (InString s) = parseConfig E (Some s)"
| "input_config E (InConfig c) = c"
| "input_config E InNull = []"
| "input_config E InUndefined = []"

subsection \<open>State\<close>

text \<open>
  A widget is known by its identity only. Calls that the transmitter makes on its
  collaborators (a widget's \<^verbatim>\<open>update\<close> and \<^verbatim>\<open>onChanged\<close>, the host element's
  \<^verbatim>\<open>setAttribute\<close>, the event's \<^verbatim>\<open>preventDefault\<close> and \<^verbatim>\<open>stopPropagation\<close>)
  are appended to a trace, in the order in which they are made. A widget's
  \<^verbatim>\<open>update\<close> is taken to return without calling back into the transmitter.
\<close>

type_synonym widget = nat

datatype event =
    WidgetUpdate widget config
  | WidgetOnChanged widget
  | SetAttribute string string
  | PreventDefault
  | StopPropagation

datatype kind = Simple | Url | Html

text \<open>
  One record holds the fields of the base class, the private fields of the two subclasses
  that have some, and the part of the page the code reads and writes:
  \<^verbatim>\<open>window.location\<close> and the attributes of the host element.
\<close>

record transmitter =
  kind :: kind
  widgets :: "widget list"
  config :: config
  defaultConfig :: "config option"
  initialHash :: string
  stateValue :: "string option"
  element :: bool
  attribute :: string
  location_href :: string
  location_hash :: string
  element_attrs :: "string \<rightharpoonup> string"
  trace :: "event list"

definition widget_update :: "transmitter \<Rightarrow> widget \<Rightarrow> config \<Rightarrow> transmitter" where
  "widget_update st w c = st\<lparr>trace := trace st @ [WidgetUpdate w c]\<rparr>"

definition widget_onChanged :: "transmitter \<Rightarrow> widget \<Rightarrow> transmitter" where
  "widget_onChanged st w = st\<lparr>trace := trace st @ [WidgetOnChanged w]\<rparr>"

text \<open>\<^verbatim>\<open>for (const widget of this.widgets) widget.update(c)\<close>\<close>

definition fan_out :: "transmitter \<Rightarrow> config \<Rightarrow> transmitter" where
  "fan_out st c = fold (\<lambda>w s. widget_update s w c) (widgets st) st"

definition getAttribute :: "transmitter \<Rightarrow> string \<Rightarrow> string option" where
  "getAttribute st a = element_attrs st a"

definition setAttribute :: "transmitter \<Rightarrow> string \<Rightarrow> string \<Rightarrow> transmitter" where
  "setAttribute st a v =
     st\<lparr>element_attrs := (element_attrs st)(a \<mapsto> v), trace := trace st @ [SetAttribute a v]\<rparr>"

subsection \<open>ConfigTransmitter\<close>

text \<open>
  \<^verbatim>\<open>defaultConfig\<close> is \<^verbatim>\<open>undefined\<close> until \<^verbatim>\<open>withDefaults\<close> stores an object, and
  an object is never falsy.
\<close>

definition get :: "transmitter \<Rightarrow> config" where
  "get st =
     (case defaultConfig st of
        None \<Rightarrow> spread [config st]
      | Some d \<Rightarrow> spread [d, config st])"

definition withDefaults :: "deps \<Rightarrow> transmitter \<Rightarrow> input \<Rightarrow> transmitter" where
  "withDefaults E st input =
     (if falsy input then st
      else st\<lparr>defaultConfig := Some (input_config E input)\<rparr>)"

definition join :: "transmitter \<Rightarrow> widget option \<Rightarrow> transmitter" where
  "join st widget =
     (case widget of
        None \<Rightarrow> st
      | Some w \<Rightarrow>
          let st1 = st\<lparr>widgets := widgets st @ [w]\<rparr>;
              st2 = widget_update st1 w (get st1)
          in widget_onChanged st2 w)"

definition base_update :: "deps \<Rightarrow> transmitter \<Rightarrow> input \<Rightarrow> transmitter" where
  "base_update E st input =
     (if falsy input then st
      else
        let change = input_config E input;
            current = get st;
            st1 = st\<lparr>config := spread [current, change]\<rparr>
        in fan_out st1 (config st1))"

text \<open>
  The equality test of \<^verbatim>\<open>serialize\<close>. Two arrays that are the same object pass the
  element test as well, so \<^verbatim>\<open>===\<close> on arrays needs no object identities here.
\<close>

fun isEqual :: "jsval \<Rightarrow> jsval \<Rightarrow> bool" where
  "isEqual (Arr v1) (Arr v2) =
     (if length v1 = length v2 then list_all (\<lambda>elem. elem \<in> set v2) v1 else False)"
| "isEqual v1 v2 = (v1 = v2)"

fun nonDefaults_loop :: "config \<Rightarrow> config \<Rightarrow> string list \<Rightarrow> config \<Rightarrow> config" where
  "nonDefaults_loop d c [] nonDefaults = nonDefaults"
| "nonDefaults_loop d c (key # ks) nonDefaults =
     (let defaultVal = get_prop d key;
          configVal = get_prop c key
      in if isEqual defaultVal configVal then nonDefaults_loop d c ks nonDefaults
         else nonDefaults_loop d c ks (set_prop nonDefaults key configVal))"

text \<open>
  \<^verbatim>\<open>this.config\<close> always holds an object, so the first test of \<^verbatim>\<open>serialize\<close>
  (\<^verbatim>\<open>!this.config\<close>) never succeeds.
\<close>

definition nonDefaults :: "config \<Rightarrow> config \<Rightarrow> config" where
  "nonDefaults d c = nonDefaults_loop d c (keys d @ keys c) []"

definition base_serialize :: "deps \<Rightarrow> transmitter \<Rightarrow> string" where
  "base_serialize E st =
     (case defaultConfig st of
        None \<Rightarrow> serializeConfig E (config st)
      | Some d \<Rightarrow> serializeConfig E (nonDefaults d (config st)))"

subsection \<open>UrlConfigTransmitter\<close>

text \<open>
  \<^verbatim>\<open>hash.match(/state=([^&#+]+)/)\<close>: the leftmost place where \<^verbatim>\<open>state=\<close> is followed
  by at least one character other than \<^verbatim>\<open>&\<close>, \<^verbatim>\<open>#\<close> and \<^verbatim>\<open>+\<close>, and the
  longest run of such characters from there. The three delimiters are ASCII, so the run is
  the same whether the text is read as bytes or as UTF-16 code units.
\<close>

definition state_delim :: "char \<Rightarrow> bool" where
  "state_delim ch = (ch = CHR ''&'' \<or> ch = CHR ''#'' \<or> ch = CHR ''+'')"

fun getStateFromHash :: "string \<Rightarrow> string option" where
  "getStateFromHash [] = None"
| "getStateFromHash (ch # rest) =
     (let stateMatch = takeWhile (\<lambda>x. \<not> state_delim x) (drop 6 (ch # rest))
      in if prefix ''state='' (ch # rest) \<and> stateMatch \<noteq> [] then Some stateMatch
         else getStateFromHash rest)"

text \<open>\<^verbatim>\<open>s.split(sep)\<close> for a separator of one character: never an empty array.\<close>

fun str_split :: "char \<Rightarrow> string \<Rightarrow> string list" where
  "str_split sep [] = [[]]"
| "str_split sep (ch # rest) =
     (if ch = sep then [] # str_split sep rest
      else (case str_split sep rest of
              [] \<Rightarrow> [[ch]]
            | part # parts \<Rightarrow> (ch # part) # parts))"

definition getHashPart :: "string \<Rightarrow> string option" where
  "getHashPart url =
     (if url = [] then None
      else let parts = str_split CHR ''#'' url
           in if length parts < 2 then None else Some (parts ! (length parts - 1)))"

definition getParameterPart :: "string \<Rightarrow> string option" where
  "getParameterPart url =
     (if url = [] then None
      else let parts = str_split CHR ''#'' url;
               part = (if length parts > 1 then parts ! (length parts - 2) else url);
               parts2 = str_split CHR ''?'' part
           in if length parts2 < 2 then None else Some (parts2 ! 1))"

text \<open>The loop of \<^verbatim>\<open>parseUrlConfig\<close> runs over the one-element array \<^verbatim>\<open>[href]\<close>.\<close>

definition parseUrlConfig :: "deps \<Rightarrow> string \<Rightarrow> config" where
  "parseUrlConfig E href =
     fold (\<lambda>url cfg.
             let hashParams = parseConfig E (getHashPart url);
                 otherParams = parseConfig E (getParameterPart url)
             in spread [cfg, otherParams, hashParams])
          [href] []"

text \<open>\<^verbatim>\<open>if (this.stateValue)\<close>: neither \<^verbatim>\<open>null\<close> nor the empty string.\<close>

fun truthy :: "string option \<Rightarrow> bool" where
  "truthy None = False"
| "truthy (Some s) = (s \<noteq> [])"

text \<open>The template literal \<^verbatim>\<open>`state=${this.stateValue}`\<close>.\<close>

fun state_template :: "string option \<Rightarrow> string" where
  "state_template None = ''state=null''"
| "state_template (Some s) = ''state='' @ s"

definition new_transmitter :: "kind \<Rightarrow> transmitter" where
  "new_transmitter k =
     \<lparr>kind = k, widgets = [], config = [], defaultConfig = None,
      initialHash = [], stateValue = None, element = False, attribute = [],
      location_href = [], location_hash = [], element_attrs = Map.empty, trace = []\<rparr>"

definition SimpleConfigTransmitter_new :: transmitter where
  "SimpleConfigTransmitter_new = new_transmitter Simple"

text \<open>
  The constructor reads \<^verbatim>\<open>window.location.hash\<close> and, in \<^verbatim>\<open>parseUrlConfig\<close>,
  \<^verbatim>\<open>window.location.href\<close>; both are arguments here.
\<close>

definition UrlConfigTransmitter_new :: "deps \<Rightarrow> string \<Rightarrow> string \<Rightarrow> transmitter" where
  "UrlConfigTransmitter_new E href hash =
     (let st = (new_transmitter Url)\<lparr>location_href := href, location_hash := hash\<rparr>;
          st1 = st\<lparr>initialHash := location_hash st\<rparr>;
          st2 = st1\<lparr>stateValue := getStateFromHash (initialHash st1)\<rparr>;
          cfg = parseUrlConfig E (location_href st2);
          cfg1 = (case stateValue st2 of
                    None \<Rightarrow> cfg
                  | Some s \<Rightarrow> if truthy (Some s) then set_prop cfg ''state'' (Sc (Str s)) else cfg)
      in st2\<lparr>config := cfg1\<rparr>)"

text \<open>
  The \<^verbatim>\<open>hashchange\<close> listener of the constructor. It reads the location, which the
  browser has already changed when it dispatches the event, and calls
  \<^verbatim>\<open>preventDefault\<close> and \<^verbatim>\<open>stopPropagation\<close> on the event. It assigns neither the
  location nor a field of the transmitter.
\<close>

definition hashchange_listener :: "transmitter \<Rightarrow> transmitter" where
  "hashchange_listener st =
     (let newHash = location_hash st
      in if \<not> sublist (state_template (stateValue st)) newHash
         then st\<lparr>trace := trace st @ [PreventDefault, StopPropagation]\<rparr>
         else st)"

definition url_update :: "deps \<Rightarrow> transmitter \<Rightarrow> input \<Rightarrow> transmitter" where
  "url_update E st input =
     (if truthy (stateValue st) then st else base_update E st input)"

definition url_serialize :: "deps \<Rightarrow> transmitter \<Rightarrow> string" where
  "url_serialize E st =
     (if truthy (stateValue st) then state_template (stateValue st)
      else base_serialize E st)"

text \<open>
  The private method \<^verbatim>\<open>onHashChanged\<close>. Nothing in the class calls it and no
  listener is registered with it, so it takes no part in the life of a transmitter below.
\<close>

definition onHashChanged :: "deps \<Rightarrow> transmitter \<Rightarrow> transmitter" where
  "onHashChanged E st =
     (if sublist ''state='' (location_hash st) then st
      else
        let st1 = st\<lparr>config := parseUrlConfig E (location_href st)\<rparr>;
            cfg = get st1
        in fan_out st1 cfg)"

subsection \<open>Calls of \<^verbatim>\<open>serialize\<close> through \<^verbatim>\<open>this\<close>\<close>

text \<open>Only the address variant overrides \<^verbatim>\<open>serialize\<close>.\<close>

definition serialize :: "deps \<Rightarrow> transmitter \<Rightarrow> string" where
  "serialize E st =
     (case kind st of
        Url \<Rightarrow> url_serialize E st
      | _ \<Rightarrow> base_serialize E st)"

subsection \<open>HtmlAttributeConfigTransmitter\<close>

text \<open>
  The constructor takes what \<^verbatim>\<open>document.querySelector(elementSelector)\<close> returned:
  \<open>None\<close> for \<^verbatim>\<open>null\<close>, else the attributes of the element that was found.
\<close>

definition HtmlAttributeConfigTransmitter_new ::
    "deps \<Rightarrow> (string \<rightharpoonup> string) option \<Rightarrow> string \<Rightarrow> transmitter" where
  "HtmlAttributeConfigTransmitter_new E found attr =
     (case found of
        None \<Rightarrow> (new_transmitter Html)\<lparr>attribute := attr\<rparr>
      | Some attrs \<Rightarrow>
          let st = (new_transmitter Html)\<lparr>element := True, attribute := attr,
                                           element_attrs := attrs\<rparr>;
              attributeValue = getAttribute st attr
          in if truthy attributeValue then st\<lparr>config := parseConfig E attributeValue\<rparr>
             else st)"

text \<open>
  The callback of the \<^verbatim>\<open>MutationObserver\<close>, run on the attribute names of the
  mutation records that the browser delivers.
\<close>

definition mutation_callback :: "deps \<Rightarrow> transmitter \<Rightarrow> string option list \<Rightarrow> transmitter" where
  "mutation_callback E st mutations =
     fold (\<lambda>attributeName s.
             if attributeName = Some (attribute s) then
               let v = getAttribute s (attribute s);
                   s1 = s\<lparr>config := parseConfig E v\<rparr>;
                   updated = get s1
               in fan_out s1 updated
             else s)
          mutations st"

definition html_update :: "deps \<Rightarrow> transmitter \<Rightarrow> input \<Rightarrow> transmitter" where
  "html_update E st input =
     (if \<not> element st then base_update E st input
      else
        let patch = input_config E input;
            st1 = st\<lparr>config := spread [config st, patch]\<rparr>;
            currentVal = getAttribute st1 (attribute st1);
            nextVal = serialize E st1
        in if currentVal \<noteq> Some nextVal then setAttribute st1 (attribute st1) nextVal
           else st1)"

subsection \<open>Calls through \<^verbatim>\<open>this\<close>\<close>

text \<open>\<^verbatim>\<open>this.update(...)\<close> runs the method of the object's own class.\<close>

definition update :: "deps \<Rightarrow> transmitter \<Rightarrow> input \<Rightarrow> transmitter" where
  "update E st input =
     (case kind st of
        Simple \<Rightarrow> base_update E st input
      | Url \<Rightarrow> url_update E st input
      | Html \<Rightarrow> html_update E st input)"

text \<open>The loop of \<^verbatim>\<open>updateIfAbsent\<close> over \<^verbatim>\<open>Object.keys(config)\<close>.\<close>

fun absent_loop :: "deps \<Rightarrow> config \<Rightarrow> string list \<Rightarrow> config \<times> bool \<Rightarrow> config \<times> bool" where
  "absent_loop E cfg [] (current, shouldUpdate) = (current, shouldUpdate)"
| "absent_loop E cfg (key # ks) (current, shouldUpdate) =
     (let updateValue = get_prop cfg key
      in if isNone E updateValue then absent_loop E cfg ks (current, shouldUpdate)
         else
           let currentValue = get_prop current key
           in if isNone E currentValue
              then absent_loop E cfg ks (set_prop current key updateValue, True)
              else absent_loop E cfg ks (current, shouldUpdate))"

definition updateIfAbsent :: "deps \<Rightarrow> transmitter \<Rightarrow> input \<Rightarrow> transmitter" where
  "updateIfAbsent E st input =
     (if falsy input then st
      else
        let cfg = input_config E input;
            (current, shouldUpdate) = absent_loop E cfg (keys cfg) (get st, False)
        in if shouldUpdate then update E st (InConfig current) else st)"

text \<open>The listener that \<^verbatim>\<open>join\<close> hands to \<^verbatim>\<open>widget.onChanged\<close>.\<close>

definition on_widget_changed :: "deps \<Rightarrow> transmitter \<Rightarrow> input \<Rightarrow> transmitter" where
  "on_widget_changed E st change = update E st change"

subsection \<open>The life of a transmitter\<close>

text \<open>
  What can happen to a transmitter after its construction: a call of one of its methods,
  a change notification of a widget (which reaches the transmitter only if the widget was
  given a listener), a change of the location by the page or the user, and a delivery of
  mutation records. On a change of the location the browser first sets the new location
  and then runs the \<^verbatim>\<open>hashchange\<close> listeners; only the address variant has one. Only
  the attribute variant with a host element observes mutations.
\<close>

datatype op =
    Join "widget option"
  | Update input
  | UpdateIfAbsent input
  | WithDefaults input
  | WidgetChanged widget input
  | Navigate string string
  | Mutations "string option list"

definition navigate :: "transmitter \<Rightarrow> string \<Rightarrow> string \<Rightarrow> transmitter" where
  "navigate st href hash =
     (let st1 = st\<lparr>location_href := href, location_hash := hash\<rparr>
      in if kind st1 = Url then hashchange_listener st1 else st1)"

fun step :: "deps \<Rightarrow> transmitter \<Rightarrow> op \<Rightarrow> transmitter" where
  "step E st (Join w) = join st w"
| "step E st (Update input) = update E st input"
| "step E st (UpdateIfAbsent input) = updateIfAbsent E st input"
| "step E st (WithDefaults input) = withDefaults E st input"
| "step E st (WidgetChanged w change) =
     (if WidgetOnChanged w \<in> set (trace st) then on_widget_changed E st change else st)"
| "step E st (Navigate href hash) = navigate st href hash"
| "step E st (Mutations ms) =
     (if kind st = Html \<and> element st then mutation_callback E st ms else st)"

definition run :: "deps \<Rightarrow> transmitter \<Rightarrow> op list \<Rightarrow> transmitter" where
  "run E st ops = foldl (step E) st ops"

text \<open>
  The address variant is locked when it found a state value in the initial hash. The
  method \<^verbatim>\<open>update\<close> of the base class is the one that runs for the memory variant, for
  the address variant that is not locked and for the attribute variant without a host
  element.
\<close>

definition locked :: "transmitter \<Rightarrow> bool" where
  "locked st = (kind st = Url \<and> truthy (stateValue st))"

definition uses_base_update :: "transmitter \<Rightarrow> bool" where
  "uses_base_update st =
     (case kind st of
        Simple \<Rightarrow> True
      | Url \<Rightarrow> \<not> truthy (stateValue st)
      | Html \<Rightarrow> \<not> element st)"

fun is_widget_update :: "event \<Rightarrow> bool" where
  "is_widget_update (WidgetUpdate w c) = True"
| "is_widget_update e = False"

subsection \<open>A codec to run the model on examples\<close>

text \<open>
  Modelled from the spec: \<^verbatim>\<open>parseConfig\<close> and \<^verbatim>\<open>serializeConfig\<close> of
  \<^verbatim>\<open>./config\<close> and \<^verbatim>\<open>isNone\<close> of \<^verbatim>\<open>./util/util\<close> are not among the source
  files. The spec asks of the codec that decoding empty or missing text gives the empty
  mapping, that encoding leaves out what the mapping does not hold, and that decoding
  gives back what was encoded; it calls a value none when it is null or undefined. The
  codec below writes \<^verbatim>\<open>key=value\<close> pairs joined by \<^verbatim>\<open>&\<close>, writes nothing for a
  property that is undefined or null, and reads every value back as a string. It serves
  the examples only: the theorems hold for every codec.
\<close>

definition digit_char :: "nat \<Rightarrow> char" where
  "digit_char d = ''0123456789'' ! d"

fun show_nat :: "nat \<Rightarrow> string" where
  "show_nat n = (if n < 10 then [digit_char n] else show_nat (n div 10) @ [digit_char (n mod 10)])"

declare show_nat.simps [simp del]

fun show_scalar :: "scalar \<Rightarrow> string" where
  "show_scalar (Str s) = s"
| "show_scalar (Num i) = (if i < 0 then CHR ''-'' # show_nat (nat (- i)) else show_nat (nat i))"
| "show_scalar (Bool b) = (if b then ''true'' else ''false'')"

fun join_with :: "char \<Rightarrow> string list \<Rightarrow> string" where
  "join_with sep [] = []"
| "join_with sep [s] = s"
| "join_with sep (s # t # ss) = s @ sep # join_with sep (t # ss)"

fun written :: "string \<times> jsval \<Rightarrow> bool" where
  "written (key, Undefined) = False"
| "written (key, Null) = False"
| "written (key, v) = True"

fun show_param :: "string \<times> jsval \<Rightarrow> string" where
  "show_param (key, Sc x) = key @ CHR ''='' # show_scalar x"
| "show_param (key, Arr xs) = key @ CHR ''='' # join_with CHR '','' (map show_scalar xs)"
| "show_param (key, v) = []"

definition demo_serialize :: "config \<Rightarrow> string" where
  "demo_serialize c = join_with CHR ''&'' (map show_param (filter written c))"

definition read_param :: "string \<Rightarrow> config \<Rightarrow> config" where
  "read_param part c =
     (let key = takeWhile (\<lambda>ch. ch \<noteq> CHR ''='') part;
          rest = dropWhile (\<lambda>ch. ch \<noteq> CHR ''='') part
      in if key = [] \<or> rest = [] then c else set_prop c key (Sc (Str (tl rest))))"

fun demo_parse :: "string option \<Rightarrow> config" where
  "demo_parse None = []"
| "demo_parse (Some s) = fold read_param (str_split CHR ''&'' s) []"

definition demo_isNone :: "jsval \<Rightarrow> bool" where
  "demo_isNone v = (v = Undefined \<or> v = Null)"

definition demo :: deps where
  "demo = \<lparr>parseConfig = demo_parse, serializeConfig = demo_serialize, isNone = demo_isNone\<rparr>"

subsection \<open>Examples\<close>

definition example_defaults :: config where
  "example_defaults = [(''units'', Sc (Str ''kg'')), (''year'', Sc (Num 2020))]"

definition example_config :: config where
  "example_config = [(''year'', Sc (Num 2020)), (''scope'', Sc (Str ''full''))]"

definition example_override :: config where
  "example_override = [(''year'', Sc (Num 2021)), (''scope'', Sc (Str ''full''))]"

text \<open>
  An encoder that writes nothing for a property whose value is \<^verbatim>\<open>undefined\<close>: a
  property of the codec that the example of the spec for \<^verbatim>\<open>serialize\<close> relies on.
\<close>

definition written_if_defined :: "deps \<Rightarrow> bool" where
  "written_if_defined E =
     (\<forall>c. serializeConfig E c = serializeConfig E (filter (\<lambda>(key, v). v \<noteq> Undefined) c))"


definition example_simple :: transmitter where
  "example_simple =
     join (join (withDefaults demo SimpleConfigTransmitter_new (InConfig example_defaults))
             (Some 1)) (Some 2)"

definition example_explicit :: transmitter where
  "example_explicit =
     (new_transmitter Simple)\<lparr>config := example_config, defaultConfig := Some example_defaults\<rparr>"

definition example_html :: transmitter where
  "example_html =
     HtmlAttributeConfigTransmitter_new demo (Some [''data-config'' \<mapsto> ''a=1'']) ''data-config''"

definition example_html_empty :: transmitter where
  "example_html_empty =
     HtmlAttributeConfigTransmitter_new demo (Some Map.empty) ''data-config''"

definition example_locked :: transmitter where
  "example_locked =
     UrlConfigTransmitter_new demo ''http://localhost/page#state=abc123'' ''#state=abc123''"

definition example_ops :: "op list" where
  "example_ops =
     [WithDefaults (InConfig example_defaults), Join (Some 1),
      Update (InConfig [(''x'', Sc (Num 1))]),
      UpdateIfAbsent (InConfig example_config),
      WidgetChanged 1 (InConfig example_override),
      Navigate ''http://localhost/page#x=1'' ''#x=1'',
      Update (InString ''y=2'')]"

definition example_absent :: config where
  "example_absent =
     [(''year'', Sc (Num 1999)), (''scope'', Sc (Str ''full'')), (''region'', Undefined)]"

text \<open>
  The working copy of \<^verbatim>\<open>updateIfAbsent\<close> after the keys \<open>ks\<close> were given their
  values from \<open>cfg\<close>, one after the other.
\<close>

definition stage :: "config \<Rightarrow> string list \<Rightarrow> config \<Rightarrow> config" where
  "stage cfg ks current = fold (\<lambda>key c. set_prop c key (get_prop cfg key)) ks current"

definition example_html_joined :: transmitter where
  "example_html_joined = join example_html (Some 1)"

definition example_locked_joined :: transmitter where
  "example_locked_joined = join example_locked (Some 1)"

section \<open>Properties\<close>

subsection \<open>Objects\<close>

lemma keys_set_prop:
  "keys (set_prop c k v) = (if k \<in> set (keys c) then keys c else keys c @ [k])"
  by (simp add: keys_def set_prop_def update_keys)

lemma wf_set_prop: "wf_config c \<Longrightarrow> wf_config (set_prop c k v)"
  by (simp add: wf_config_def set_prop_def distinct_update)

lemma map_of_set_prop: "map_of (set_prop c k v) = (map_of c)(k \<mapsto> v)"
  by (simp add: set_prop_def update_conv')

lemma get_prop_set_prop:
  "get_prop (set_prop c k v) k' = (if k' = k then v else get_prop c k')"
  by (simp add: get_prop_def map_of_set_prop)

lemma in_keys_iff: "k \<in> set (keys c) \<longleftrightarrow> map_of c k \<noteq> None"
  by (simp add: keys_def map_of_eq_None_iff)

lemma assign_Nil [simp]: "assign tgt [] = tgt"
  by (simp add: assign_def)

lemma assign_Cons [simp]: "assign tgt ((k, v) # src) = assign (set_prop tgt k v) src"
  by (simp add: assign_def)

lemma wf_assign: "wf_config tgt \<Longrightarrow> wf_config (assign tgt src)"
  by (induction src arbitrary: tgt) (auto simp: wf_set_prop)

lemma set_keys_assign: "set (keys (assign tgt src)) = set (keys tgt) \<union> set (keys src)"
proof (induction src arbitrary: tgt)
  case Nil
  then show ?case by (simp add: keys_def)
next
  case (Cons p src)
  obtain k v where p: "p = (k, v)" by (cases p)
  show ?case unfolding p by (auto simp: Cons keys_set_prop) (auto simp: keys_def)
qed

lemma map_of_assign:
  "wf_config src \<Longrightarrow> map_of (assign tgt src) = map_of tgt ++ map_of src"
proof (induction src arbitrary: tgt)
  case Nil
  then show ?case by simp
next
  case (Cons p src)
  obtain k v where p: "p = (k, v)" by (cases p)
  from Cons.prems have wf: "wf_config src" and nk: "k \<notin> fst ` set src"
    by (auto simp: wf_config_def p)
  have "map_of (assign tgt (p # src)) x = (map_of tgt ++ map_of (p # src)) x" for x
  proof -
    from nk have "map_of src k = None" by (simp add: map_of_eq_None_iff)
    then show ?thesis
      using Cons.IH[OF wf, of "set_prop tgt k v"]
      by (auto simp: p map_of_set_prop map_add_def split: option.splits)
  qed
  then show ?case by (intro ext)
qed

lemma get_prop_assign:
  "wf_config src \<Longrightarrow>
   get_prop (assign tgt src) k = (if k \<in> set (keys src) then get_prop src k else get_prop tgt k)"
  by (auto simp: get_prop_def map_of_assign map_add_def in_keys_iff split: option.splits)

lemma keys_assign:
  "wf_config src \<Longrightarrow>
   keys (assign tgt src) = keys tgt @ filter (\<lambda>k. k \<notin> set (keys tgt)) (keys src)"
proof (induction src arbitrary: tgt)
  case Nil
  then show ?case by (simp add: keys_def)
next
  case (Cons p src)
  obtain k v where p: "p = (k, v)" by (cases p)
  from Cons.prems have wf: "wf_config src" and nk: "k \<notin> set (keys src)"
    by (auto simp: wf_config_def p keys_def)
  have *: "filter (\<lambda>x. x \<noteq> k \<and> x \<notin> set (keys tgt)) (keys src)
         = filter (\<lambda>x. x \<notin> set (keys tgt)) (keys src)"
    using nk by (intro filter_cong) auto
  show ?case unfolding p using nk
    by (simp add: Cons.IH[OF wf] keys_set_prop *) (simp add: keys_def)
qed

lemma config_eqI:
  assumes "keys a = keys b" and "\<And>k. get_prop a k = get_prop b k" and "wf_config a"
  shows "a = b"
  using assms
proof (induction a arbitrary: b)
  case Nil
  then show ?case by (simp add: keys_def)
next
  case (Cons p a)
  obtain k v where p: "p = (k, v)" by (cases p)
  from Cons.prems(1) obtain q b' where b: "b = q # b'" by (cases b) (auto simp: keys_def)
  obtain k' v' where q: "q = (k', v')" by (cases q)
  from Cons.prems(1) have kk: "k' = k" and ks: "keys a = keys b'"
    by (auto simp: keys_def p b q)
  from Cons.prems(3) have wf: "wf_config a" and nk: "k \<notin> set (keys a)"
    by (auto simp: wf_config_def p keys_def)
  from Cons.prems(2)[of k] have vv: "v' = v" by (simp add: get_prop_def p b q kk)
  have "get_prop a x = get_prop b' x" for x
  proof (cases "x = k")
    case True
    from nk have "map_of a k = None" by (simp add: in_keys_iff)
    moreover from nk ks have "map_of b' k = None" by (simp add: in_keys_iff)
    ultimately show ?thesis using True by (simp add: get_prop_def)
  next
    case False
    with Cons.prems(2)[of x] show ?thesis by (simp add: get_prop_def p b q kk)
  qed
  with Cons.IH[OF ks _ wf] have "a = b'" by blast
  then show ?case by (simp add: p b q kk vv)
qed

lemma wf_Nil: "wf_config []"
  by (simp add: wf_config_def)

lemma assign_empty_id: "wf_config c \<Longrightarrow> assign [] c = c"
proof (rule config_eqI)
  assume wf: "wf_config c"
  show "keys (assign [] c) = keys c"
    by (simp add: keys_assign[OF wf]) (simp add: keys_def)
  show "get_prop (assign [] c) k = get_prop c k" for k
    by (simp add: get_prop_assign[OF wf]) (simp add: get_prop_def in_keys_iff)
  show "wf_config (assign [] c)"
    by (rule wf_assign[OF wf_Nil])
qed

lemma spread_one: "spread [c] = assign [] c"
  by (simp add: spread_def)

lemma spread_two: "spread [a, b] = assign (assign [] a) b"
  by (simp add: spread_def)

subsection \<open>\<^verbatim>\<open>get\<close>\<close>

lemma wf_get: "wf_config (get st)"
  by (simp add: get_def spread_one spread_two wf_assign wf_Nil split: option.splits)

lemma get_no_defaults:
  "defaultConfig st = None \<Longrightarrow> wf_config (config st) \<Longrightarrow> get st = config st"
  by (simp add: get_def spread_one assign_empty_id)

lemma get_with_defaults:
  "defaultConfig st = Some d \<Longrightarrow> wf_config d \<Longrightarrow> get st = assign d (config st)"
  by (simp add: get_def spread_two assign_empty_id)

text \<open>
  C1. \<^verbatim>\<open>get\<close> is one method of the base class, not overridden: the statement is about
  every transmitter state, whatever its variant. Without a default overlay it returns the
  explicit config, property for property and in the same order. With a default overlay
  \<open>d\<close> its keys are those of \<open>d\<close> and those of the explicit config, and each key has the
  explicit value where the explicit config has the key, the default value otherwise. The
  result is a config and nothing else: \<^verbatim>\<open>get\<close> returns no new state, as it assigns no
  field.
\<close>

theorem get_overlays_defaults:
  assumes "wf_config (config st)"
  shows "(defaultConfig st = None \<longrightarrow> get st = config st) \<and>
         (\<forall>d. defaultConfig st = Some d \<and> wf_config d \<longrightarrow>
            set (keys (get st)) = set (keys d) \<union> set (keys (config st)) \<and>
            (\<forall>key. get_prop (get st) key =
               (if key \<in> set (keys (config st)) then get_prop (config st) key
                else get_prop d key)))"
  using assms
  by (auto simp: get_no_defaults get_with_defaults set_keys_assign get_prop_assign)

theorem get_overlays_defaults_witness:
  "wf_config example_override \<and> wf_config example_defaults \<and>
   get ((new_transmitter Simple)\<lparr>config := example_override\<rparr>) = example_override \<and>
   get_prop (get ((new_transmitter Url)\<lparr>config := example_override,
                    defaultConfig := Some example_defaults\<rparr>)) ''year'' = Sc (Num 2021) \<and>
   get_prop (get ((new_transmitter Url)\<lparr>config := example_override,
                    defaultConfig := Some example_defaults\<rparr>)) ''units'' = Sc (Str ''kg'')"
proof -
  have wf: "wf_config example_override" "wf_config example_defaults"
    by (simp_all add: wf_config_def example_override_def example_defaults_def)
  have 1: "get ((new_transmitter Simple)\<lparr>config := example_override\<rparr>) = example_override"
    using get_overlays_defaults[of "(new_transmitter Simple)\<lparr>config := example_override\<rparr>"] wf
    by (simp add: new_transmitter_def)
  have 2: "get_prop (get ((new_transmitter Url)\<lparr>config := example_override,
                    defaultConfig := Some example_defaults\<rparr>)) key =
            (if key \<in> set (keys example_override) then get_prop example_override key
                else get_prop example_defaults key)" for key
    using get_overlays_defaults[of "(new_transmitter Url)\<lparr>config := example_override,
                    defaultConfig := Some example_defaults\<rparr>"] wf
    by (simp add: new_transmitter_def)
  show ?thesis
    using wf 1 2[of "''year''"] 2[of "''units''"]
    by (simp add: keys_def get_prop_def example_override_def example_defaults_def)
qed

subsection \<open>\<^verbatim>\<open>update\<close> of the base class\<close>

lemma fold_widget_update:
  "fold (\<lambda>w s. widget_update s w c) ws st
     = st\<lparr>trace := trace st @ map (\<lambda>w. WidgetUpdate w c) ws\<rparr>"
  by (induction ws arbitrary: st) (simp_all add: widget_update_def)

lemma fan_out_eq:
  "fan_out st c = st\<lparr>trace := trace st @ map (\<lambda>w. WidgetUpdate w c) (widgets st)\<rparr>"
  by (simp add: fan_out_def fold_widget_update)

lemma base_update_eq:
  "\<not> falsy input \<Longrightarrow>
   base_update E st input =
     st\<lparr>config := spread [get st, input_config E input],
        trace := trace st @
          map (\<lambda>w. WidgetUpdate w (spread [get st, input_config E input])) (widgets st)\<rparr>"
  by (simp add: base_update_def Let_def fan_out_eq)

lemma update_uses_base:
  "uses_base_update st \<Longrightarrow> update E st input = base_update E st input"
  by (auto simp: uses_base_update_def update_def url_update_def html_update_def
           split: kind.splits)

lemma spread_get: "spread [get st, c] = assign (get st) c"
  by (simp add: spread_two assign_empty_id wf_get)

text \<open>
  C2. When the method of the base class runs (the shared broadcaster) and the input is
  not falsy, \<^verbatim>\<open>update\<close> stores \<^verbatim>\<open>{...get(), ...change}\<close> as the explicit config
  and then calls \<^verbatim>\<open>update\<close> with that object once on each entry of the registry, in
  registry order and on nothing else; the registry holds the widget that sent the change
  like any other. Where the change is an object, every key of the change has the value of
  the change in the merged object and every other key the value of \<^verbatim>\<open>get()\<close>.
\<close>

theorem update_merges_and_fans_out:
  assumes "\<not> falsy input" and "uses_base_update st"
  shows "let change = input_config E input;
             merged = spread [get st, change];
             st' = update E st input
         in config st' = merged \<and>
            trace st' = trace st @ map (\<lambda>w. WidgetUpdate w merged) (widgets st) \<and>
            widgets st' = widgets st \<and>
            defaultConfig st' = defaultConfig st \<and>
            (wf_config change \<longrightarrow>
               (\<forall>key. get_prop merged key =
                  (if key \<in> set (keys change) then get_prop change key
                   else get_prop (get st) key)))"
  using assms
  by (simp add: Let_def update_uses_base base_update_eq spread_get get_prop_assign)


theorem update_merges_and_fans_out_witness:
  "\<not> falsy (InConfig example_override) \<and> uses_base_update example_simple \<and>
   config (update demo example_simple (InConfig example_override)) =
     [(''units'', Sc (Str ''kg'')), (''year'', Sc (Num 2021)), (''scope'', Sc (Str ''full''))] \<and>
   trace (update demo example_simple (InConfig example_override)) =
     trace example_simple @
     [WidgetUpdate 1 [(''units'', Sc (Str ''kg'')), (''year'', Sc (Num 2021)),
                      (''scope'', Sc (Str ''full''))],
      WidgetUpdate 2 [(''units'', Sc (Str ''kg'')), (''year'', Sc (Num 2021)),
                      (''scope'', Sc (Str ''full''))]]"
proof -
  have h1: "\<not> falsy (InConfig example_override)" by simp
  have h2: "uses_base_update example_simple" by code_simp
  have m: "spread [get example_simple, input_config demo (InConfig example_override)] =
      [(''units'', Sc (Str ''kg'')), (''year'', Sc (Num 2021)), (''scope'', Sc (Str ''full''))]"
    by code_simp
  have w: "widgets example_simple = [1, 2]" by code_simp
  from update_merges_and_fans_out[OF h1 h2, of demo] show ?thesis
    unfolding Let_def m w using h1 h2 by simp
qed

subsection \<open>\<^verbatim>\<open>serialize\<close>\<close>

lemma isEqual_refl: "isEqual v v"
  by (cases v) (simp_all add: list_all_iff)

lemma isEqual_iff:
  "isEqual v1 v2 \<longleftrightarrow>
     v1 = v2 \<or> (\<exists>a b. v1 = Arr a \<and> v2 = Arr b \<and> length a = length b \<and> set a \<subseteq> set b)"
  by (cases v1; cases v2) (auto simp: list_all_iff)

lemma keys_nonDefaults_loop:
  "set (keys (nonDefaults_loop d c ks nd)) =
     set (keys nd) \<union> {key \<in> set ks. \<not> isEqual (get_prop d key) (get_prop c key)}"
  by (induction ks arbitrary: nd) (auto simp: Let_def keys_set_prop)

lemma wf_nonDefaults_loop: "wf_config nd \<Longrightarrow> wf_config (nonDefaults_loop d c ks nd)"
  by (induction ks arbitrary: nd) (auto simp: Let_def wf_set_prop)

lemma get_prop_nonDefaults_loop:
  "get_prop (nonDefaults_loop d c ks nd) key =
     (if key \<in> set ks \<and> \<not> isEqual (get_prop d key) (get_prop c key) then get_prop c key
      else get_prop nd key)"
  by (induction ks arbitrary: nd) (auto simp: Let_def get_prop_set_prop)

lemma keys_nonDefaults:
  "set (keys (nonDefaults d c)) =
     {key \<in> set (keys d) \<union> set (keys c). \<not> isEqual (get_prop d key) (get_prop c key)}"
proof -
  have "keys ([] :: config) = []" by (simp add: keys_def)
  then show ?thesis
    unfolding nonDefaults_def keys_nonDefaults_loop by auto
qed

lemma wf_nonDefaults: "wf_config (nonDefaults d c)"
  by (simp add: nonDefaults_def wf_nonDefaults_loop wf_Nil)

lemma get_prop_nonDefaults:
  "key \<in> set (keys (nonDefaults d c)) \<Longrightarrow> get_prop (nonDefaults d c) key = get_prop c key"
  unfolding keys_nonDefaults by (auto simp: nonDefaults_def get_prop_nonDefaults_loop)

lemma serialize_unlocked: "\<not> locked st \<Longrightarrow> serialize E st = base_serialize E st"
  by (auto simp: serialize_def locked_def url_serialize_def split: kind.splits)

lemma base_serialize_defaults:
  "defaultConfig st = Some d \<Longrightarrow> base_serialize E st = serializeConfig E (nonDefaults d (config st))"
  by (simp add: base_serialize_def)

lemma example_nonDefaults:
  "nonDefaults example_defaults example_config = [(''units'', Undefined), (''scope'', Sc (Str ''full''))]"
  by code_simp

text \<open>
  C5. With a default overlay \<open>d\<close> (and no lock), \<^verbatim>\<open>serialize\<close> hands to the encoder
  an object whose keys are exactly the keys of \<open>d\<close> or of the explicit config for which
  the default value and the explicit value are not equal, each with its explicit value
  (\<^verbatim>\<open>undefined\<close> for a key that only \<open>d\<close> has). Two values are equal when they are
  identical, or when both are arrays of the same length and every element of the first
  occurs in the second. For the defaults \<^verbatim>\<open>{units: "kg", year: 2020}\<close> and the explicit
  config \<^verbatim>\<open>{year: 2020, scope: "full"}\<close> the object is
  \<^verbatim>\<open>{units: undefined, scope: "full"}\<close>, and an encoder that writes nothing for an
  undefined property gives the encoding of \<^verbatim>\<open>{scope: "full"}\<close>.
\<close>

theorem serialize_omits_defaults:
  assumes "defaultConfig st = Some d" and "\<not> locked st"
  shows "let c = config st; nd = nonDefaults d c
         in serialize E st = serializeConfig E nd \<and>
            wf_config nd \<and>
            set (keys nd) =
              {key \<in> set (keys d) \<union> set (keys c). \<not> isEqual (get_prop d key) (get_prop c key)} \<and>
            (\<forall>key \<in> set (keys nd). get_prop nd key = get_prop c key) \<and>
            (\<forall>v1 v2. isEqual v1 v2 \<longleftrightarrow>
               v1 = v2 \<or>
               (\<exists>a b. v1 = Arr a \<and> v2 = Arr b \<and> length a = length b \<and> set a \<subseteq> set b)) \<and>
            (d = example_defaults \<and> c = example_config \<longrightarrow>
               nd = [(''units'', Undefined), (''scope'', Sc (Str ''full''))] \<and>
               (written_if_defined E \<longrightarrow>
                  serialize E st = serializeConfig E [(''scope'', Sc (Str ''full''))]))"
proof -
  let ?c = "config st"
  let ?nd = "nonDefaults d ?c"
  have ser: "serialize E st = serializeConfig E ?nd"
    using assms by (simp add: serialize_unlocked base_serialize_defaults)
  have ex: "serialize E st = serializeConfig E [(''scope'', Sc (Str ''full''))]"
    if "d = example_defaults" "?c = example_config" "written_if_defined E"
  proof -
    from that(3) have "serializeConfig E ?nd =
        serializeConfig E (filter (\<lambda>(key, v). v \<noteq> Undefined) ?nd)"
      unfolding written_if_defined_def by blast
    then show ?thesis using that(1,2) by (simp add: ser example_nonDefaults)
  qed
  have ex': "d = example_defaults \<and> ?c = example_config \<longrightarrow>
               ?nd = [(''units'', Undefined), (''scope'', Sc (Str ''full''))] \<and>
               (written_if_defined E \<longrightarrow>
                  serialize E st = serializeConfig E [(''scope'', Sc (Str ''full''))])"
    using ex by (auto simp: example_nonDefaults)
  have eq: "\<forall>v1 v2. isEqual v1 v2 \<longleftrightarrow>
               v1 = v2 \<or>
               (\<exists>a b. v1 = Arr a \<and> v2 = Arr b \<and> length a = length b \<and> set a \<subseteq> set b)"
    using isEqual_iff by blast
  have vals: "\<forall>key \<in> set (keys ?nd). get_prop ?nd key = get_prop ?c key"
    using get_prop_nonDefaults by blast
  show ?thesis
    unfolding Let_def
    by (intro conjI) (fact ser, fact wf_nonDefaults, fact keys_nonDefaults, fact vals, fact eq, fact ex')
qed

lemma demo_written_if_defined: "written_if_defined demo"
proof -
  have "filter written (filter (\<lambda>(key, v). v \<noteq> Undefined) c) = filter written c" for c
    by (induction c) auto
  then show ?thesis
    by (simp add: written_if_defined_def demo_def demo_serialize_def)
qed

theorem serialize_omits_defaults_witness:
  "defaultConfig example_explicit = Some example_defaults \<and> \<not> locked example_explicit \<and>
   config example_explicit = example_config \<and> written_if_defined demo \<and>
   serialize demo example_explicit = serializeConfig demo [(''scope'', Sc (Str ''full''))] \<and>
   serialize demo example_explicit = ''scope=full''"
proof -
  have h1: "defaultConfig example_explicit = Some example_defaults"
    by (simp add: example_explicit_def new_transmitter_def)
  have h2: "\<not> locked example_explicit"
    by (simp add: example_explicit_def new_transmitter_def locked_def)
  have h3: "config example_explicit = example_config"
    by (simp add: example_explicit_def new_transmitter_def)
  have v: "serializeConfig demo [(''scope'', Sc (Str ''full''))] = ''scope=full''"
    by (simp add: demo_def demo_serialize_def)
  have "serialize demo example_explicit = serializeConfig demo [(''scope'', Sc (Str ''full''))]"
    using serialize_omits_defaults[OF h1 h2, of demo] h3 demo_written_if_defined
    unfolding Let_def by blast
  with h1 h2 h3 demo_written_if_defined v show ?thesis by simp
qed

subsection \<open>What \<^verbatim>\<open>update\<close> stores\<close>

lemma uses_base_not_locked: "uses_base_update st \<Longrightarrow> \<not> locked st"
  by (auto simp: uses_base_update_def locked_def)

lemma locked_cong:
  "kind st' = kind st \<Longrightarrow> stateValue st' = stateValue st \<Longrightarrow> locked st' = locked st"
  by (simp add: locked_def)

text \<open>
  C10. When the method of the base class runs with a default overlay \<open>d\<close> and an input
  that is not falsy, the explicit config that \<^verbatim>\<open>update\<close> stores is
  \<^verbatim>\<open>{...get(), ...change}\<close> with \<^verbatim>\<open>get()\<close> being \<^verbatim>\<open>{...d, ...config}\<close>: every
  key of \<open>d\<close> is a key of the stored config, and a key that only \<open>d\<close> has is stored
  with its default value. \<^verbatim>\<open>serialize\<close> afterwards encodes the non-default part of
  the stored config, which holds no key of \<open>d\<close> whose stored value is the default value.
\<close>

theorem update_stores_defaults:
  assumes "\<not> falsy input" and "uses_base_update st" and "defaultConfig st = Some d"
  shows "let change = input_config E input;
             st' = update E st input
         in config st' = spread [get st, change] \<and>
            get st = spread [d, config st] \<and>
            set (keys d) \<subseteq> set (keys (config st')) \<and>
            (wf_config d \<and> wf_config (config st) \<and> wf_config change \<longrightarrow>
               (\<forall>key \<in> set (keys d).
                  key \<notin> set (keys (config st)) \<and> key \<notin> set (keys change) \<longrightarrow>
                  get_prop (config st') key = get_prop d key)) \<and>
            serialize E st' = serializeConfig E (nonDefaults d (config st')) \<and>
            (\<forall>key \<in> set (keys d).
               get_prop (config st') key = get_prop d key \<longrightarrow>
               key \<notin> set (keys (nonDefaults d (config st'))))"
proof -
  let ?change = "input_config E input"
  let ?st' = "update E st input"
  have st': "?st' = st\<lparr>config := spread [get st, ?change],
        trace := trace st @
          map (\<lambda>w. WidgetUpdate w (spread [get st, ?change])) (widgets st)\<rparr>"
    using assms(1,2) by (simp add: update_uses_base base_update_eq)
  have 1: "config ?st' = spread [get st, ?change]" by (simp add: st')
  have 2: "get st = spread [d, config st]" using assms(3) by (simp add: get_def)
  have 3: "set (keys d) \<subseteq> set (keys (config ?st'))"
    by (simp add: 1 spread_get set_keys_assign 2 spread_two) (auto simp: set_keys_assign)
  have 4: "wf_config d \<and> wf_config (config st) \<and> wf_config ?change \<longrightarrow>
               (\<forall>key \<in> set (keys d).
                  key \<notin> set (keys (config st)) \<and> key \<notin> set (keys ?change) \<longrightarrow>
                  get_prop (config ?st') key = get_prop d key)"
  proof (intro impI ballI)
    fix key
    assume wf: "wf_config d \<and> wf_config (config st) \<and> wf_config ?change"
      and k: "key \<notin> set (keys (config st)) \<and> key \<notin> set (keys ?change)"
    have "get_prop (config ?st') key = get_prop (get st) key"
      using wf k by (simp add: 1 spread_get get_prop_assign)
    also have "\<dots> = get_prop d key"
      using wf k assms(3) by (simp add: get_with_defaults get_prop_assign)
    finally show "get_prop (config ?st') key = get_prop d key" .
  qed
  have "\<not> locked ?st'"
    using uses_base_not_locked[OF assms(2)] by (simp add: st' locked_def)
  moreover have "defaultConfig ?st' = Some d" using assms(3) by (simp add: st')
  ultimately have 5: "serialize E ?st' = serializeConfig E (nonDefaults d (config ?st'))"
    by (simp add: serialize_unlocked base_serialize_defaults)
  have 6: "\<forall>key \<in> set (keys d).
               get_prop (config ?st') key = get_prop d key \<longrightarrow>
               key \<notin> set (keys (nonDefaults d (config ?st')))"
    by (simp add: keys_nonDefaults isEqual_refl)
  show ?thesis
    unfolding Let_def by (intro conjI) (fact 1, fact 2, fact 3, fact 4, fact 5, fact 6)
qed

theorem update_stores_defaults_witness:
  "\<not> falsy (InConfig [(''scope'', Sc (Str ''full''))]) \<and> uses_base_update example_simple \<and>
   defaultConfig example_simple = Some example_defaults \<and>
   config example_simple = [] \<and>
   config (update demo example_simple (InConfig [(''scope'', Sc (Str ''full''))])) =
     [(''units'', Sc (Str ''kg'')), (''year'', Sc (Num 2020)), (''scope'', Sc (Str ''full''))] \<and>
   serialize demo (update demo example_simple (InConfig [(''scope'', Sc (Str ''full''))])) =
     ''scope=full''"
proof -
  let ?i = "InConfig [(''scope'', Sc (Str ''full''))]"
  have h1: "\<not> falsy ?i" by simp
  have h2: "uses_base_update example_simple" by code_simp
  have h3: "defaultConfig example_simple = Some example_defaults" by code_simp
  have c0: "config example_simple = []" by code_simp
  have m: "spread [get example_simple, [(''scope'', Sc (Str ''full''))]] =
      [(''units'', Sc (Str ''kg'')), (''year'', Sc (Num 2020)), (''scope'', Sc (Str ''full''))]"
    by code_simp
  have s: "serializeConfig demo (nonDefaults example_defaults
      [(''units'', Sc (Str ''kg'')), (''year'', Sc (Num 2020)), (''scope'', Sc (Str ''full''))]) =
      ''scope=full''"
    by code_simp
  from update_stores_defaults[OF h1 h2 h3, of demo]
  have "config (update demo example_simple ?i) = spread [get example_simple, input_config demo ?i]"
    and "serialize demo (update demo example_simple ?i) =
      serializeConfig demo (nonDefaults example_defaults (config (update demo example_simple ?i)))"
    unfolding Let_def by blast+
  then show ?thesis using h1 h2 h3 c0 by (simp add: m s)
qed

subsection \<open>\<^verbatim>\<open>join\<close>\<close>

text \<open>
  C7. \<^verbatim>\<open>join(null)\<close> returns the state as it is. \<^verbatim>\<open>join(w)\<close> puts \<open>w\<close> at the end
  of the registry and makes two calls on collaborators, in this order: one
  \<^verbatim>\<open>w.update\<close> with the snapshot \<^verbatim>\<open>get()\<close>, then \<^verbatim>\<open>w.onChanged\<close> with a
  listener. The configs and \<^verbatim>\<open>get()\<close> stay as they are. From then on a change
  notification of \<open>w\<close> runs \<^verbatim>\<open>update\<close> of the transmitter with the change.
\<close>

theorem join_delivers_snapshot:
  "join st None = st \<and>
   (let st' = join st (Some w)
    in widgets st' = widgets st @ [w] \<and>
       trace st' = trace st @ [WidgetUpdate w (get st), WidgetOnChanged w] \<and>
       config st' = config st \<and>
       defaultConfig st' = defaultConfig st \<and>
       get st' = get st \<and>
       (\<forall>change. step E st' (WidgetChanged w change) = update E st' change))"
  by (simp add: join_def Let_def widget_update_def widget_onChanged_def get_def
        on_widget_changed_def split: option.splits)

theorem join_delivers_snapshot_witness:
  "widgets (join example_simple (Some 7)) = [1, 2, 7] \<and>
   trace (join example_simple (Some 7)) =
     trace example_simple @ [WidgetUpdate 7 example_defaults, WidgetOnChanged 7] \<and>
   join example_simple None = example_simple"
proof -
  have w: "widgets example_simple = [1, 2]" by code_simp
  have g: "get example_simple = example_defaults" by code_simp
  from join_delivers_snapshot[of example_simple 7 demo] show ?thesis
    unfolding Let_def by (simp add: w g)
qed

subsection \<open>\<^verbatim>\<open>update\<close> with an empty input\<close>

lemma base_update_falsy: "falsy input \<Longrightarrow> base_update E st input = st"
  by (simp add: base_update_def)

lemma falsy_input_config:
  "falsy input \<Longrightarrow> parseConfig E (Some []) = [] \<Longrightarrow> input_config E input = []"
  by (cases input) auto

lemma spread_with_empty: "wf_config c \<Longrightarrow> spread [c, []] = c"
  by (simp add: spread_two assign_empty_id)

lemma filter_widget_update_setAttribute:
  "filter is_widget_update (trace (setAttribute st a v)) = filter is_widget_update (trace st)"
  by (simp add: setAttribute_def)

text \<open>
  C8, as the code has it. The test \<^verbatim>\<open>!input\<close> holds for \<^verbatim>\<open>null\<close>,
  \<^verbatim>\<open>undefined\<close> and the empty string. With such an input \<^verbatim>\<open>update\<close> returns
  the state as it is, for the memory variant, for the address variant and for the
  attribute variant without a host element. The attribute variant with a host element
  has no such test; there the explicit config is kept and no widget is called during the
  call, for a decoder that gives the empty mapping for the empty string.
\<close>

theorem update_falsy_is_noop:
  assumes "falsy input"
  shows "(\<not> (kind st = Html \<and> element st) \<longrightarrow> update E st input = st) \<and>
         (kind st = Html \<and> element st \<and> wf_config (config st) \<and> parseConfig E (Some []) = [] \<longrightarrow>
            config (update E st input) = config st \<and>
            filter is_widget_update (trace (update E st input)) =
              filter is_widget_update (trace st))"
proof (intro conjI impI)
  assume "\<not> (kind st = Html \<and> element st)"
  then show "update E st input = st"
    using assms
    by (auto simp: update_def url_update_def html_update_def base_update_falsy split: kind.splits)
next
  assume h: "kind st = Html \<and> element st \<and> wf_config (config st) \<and> parseConfig E (Some []) = []"
  then have m: "spread [config st, input_config E input] = config st"
    using assms by (simp add: falsy_input_config spread_with_empty)
  from h show "config (update E st input) = config st"
    by (simp add: update_def html_update_def Let_def m setAttribute_def)
  from h show "filter is_widget_update (trace (update E st input)) =
              filter is_widget_update (trace st)"
    by (simp add: update_def html_update_def Let_def m setAttribute_def)
qed

theorem update_falsy_is_noop_witness:
  "falsy (InString []) \<and> falsy InNull \<and> kind example_simple \<noteq> Html \<and>
   update demo example_simple (InString []) = example_simple \<and>
   kind example_html_joined = Html \<and> element example_html_joined \<and>
   wf_config (config example_html_joined) \<and>
   parseConfig demo (Some []) = [] \<and>
   config (update demo example_html_joined InNull) = config example_html_joined \<and>
   filter is_widget_update (trace (update demo example_html_joined InNull)) =
     filter is_widget_update (trace example_html_joined)"
proof -
  have f: "falsy (InString [])" "falsy InNull" by simp_all
  have k: "kind example_simple \<noteq> Html" by code_simp
  have h: "kind example_html_joined = Html" "element example_html_joined"
    "wf_config (config example_html_joined)"
    "parseConfig demo (Some []) = []"
    by code_simp+
  from update_falsy_is_noop[OF f(1), of example_simple demo] k
  have 1: "update demo example_simple (InString []) = example_simple" by simp
  from update_falsy_is_noop[OF f(2), of example_html_joined demo] h
  have 2: "config (update demo example_html_joined InNull) = config example_html_joined \<and>
     filter is_widget_update (trace (update demo example_html_joined InNull)) =
     filter is_widget_update (trace example_html_joined)" by blast
  from f k h 1 2 show ?thesis by blast
qed

text \<open>
  C8, as the claim has it, fails for the empty mapping \<^verbatim>\<open>{}\<close>, which is an object
  and so not falsy: on a memory transmitter with the default overlay
  \<^verbatim>\<open>{units: "kg", year: 2020}\<close>, an empty explicit config and two joined widgets,
  \<^verbatim>\<open>update({})\<close> stores the defaults as explicit config and calls \<^verbatim>\<open>update\<close> on
  both widgets.
\<close>

theorem update_empty_config_counterexample:
  "\<not> falsy (InConfig []) \<and> input_config demo (InConfig []) = [] \<and>
   config example_simple = [] \<and>
   config (update demo example_simple (InConfig [])) = example_defaults \<and>
   trace (update demo example_simple (InConfig [])) =
     trace example_simple @
     [WidgetUpdate 1 example_defaults, WidgetUpdate 2 example_defaults]"
  by code_simp

subsection \<open>\<^verbatim>\<open>update\<close> of the attribute variant\<close>

text \<open>
  C9. With a host element, \<^verbatim>\<open>update\<close> of the attribute variant stores
  \<^verbatim>\<open>{...config, ...patch}\<close> as explicit config (every key of the patch with the value
  of the patch, every other key as before), takes \<^verbatim>\<open>serialize()\<close> of the new state as
  the next attribute value (the encoding of the new explicit config when there is no
  default overlay), and calls \<^verbatim>\<open>setAttribute\<close> with it, once, exactly when the
  attribute is missing or holds a different text. When the attribute holds the same text
  nothing is written and no call is made.
\<close>

theorem html_update_writes_if_changed:
  assumes "kind st = Html" and "element st"
  shows "let patch = input_config E input;
             merged = spread [config st, patch];
             nextVal = serialize E (st\<lparr>config := merged\<rparr>);
             st' = update E st input
         in config st' = merged \<and>
            (wf_config (config st) \<and> wf_config patch \<longrightarrow>
               (\<forall>key. get_prop merged key =
                  (if key \<in> set (keys patch) then get_prop patch key
                   else get_prop (config st) key))) \<and>
            (defaultConfig st = None \<longrightarrow> nextVal = serializeConfig E merged) \<and>
            (getAttribute st (attribute st) \<noteq> Some nextVal \<longrightarrow>
               trace st' = trace st @ [SetAttribute (attribute st) nextVal] \<and>
               getAttribute st' (attribute st) = Some nextVal) \<and>
            (getAttribute st (attribute st) = Some nextVal \<longrightarrow>
               trace st' = trace st \<and> element_attrs st' = element_attrs st)"
proof -
  let ?patch = "input_config E input"
  let ?merged = "spread [config st, ?patch]"
  let ?st1 = "st\<lparr>config := ?merged\<rparr>"
  let ?nextVal = "serialize E ?st1"
  let ?st' = "update E st input"
  have upd: "?st' = (if getAttribute st (attribute st) \<noteq> Some ?nextVal
                     then setAttribute ?st1 (attribute st) ?nextVal else ?st1)"
    using assms by (simp add: update_def html_update_def Let_def getAttribute_def)
  have 1: "config ?st' = ?merged" by (simp add: upd setAttribute_def)
  have 2: "wf_config (config st) \<and> wf_config ?patch \<longrightarrow>
               (\<forall>key. get_prop ?merged key =
                  (if key \<in> set (keys ?patch) then get_prop ?patch key
                   else get_prop (config st) key))"
    by (simp add: spread_two assign_empty_id get_prop_assign)
  have 3: "defaultConfig st = None \<longrightarrow> ?nextVal = serializeConfig E ?merged"
    using assms by (simp add: serialize_def base_serialize_def)
  have 4: "getAttribute st (attribute st) \<noteq> Some ?nextVal \<longrightarrow>
               trace ?st' = trace st @ [SetAttribute (attribute st) ?nextVal] \<and>
               getAttribute ?st' (attribute st) = Some ?nextVal"
    by (simp add: upd setAttribute_def getAttribute_def)
  have 5: "getAttribute st (attribute st) = Some ?nextVal \<longrightarrow>
               trace ?st' = trace st \<and> element_attrs ?st' = element_attrs st"
    by (simp add: upd)
  show ?thesis
    unfolding Let_def by (intro conjI) (fact 1, fact 2, fact 3, fact 4, fact 5)
qed

theorem html_update_writes_if_changed_witness:
  "kind example_html = Html \<and> element example_html \<and>
   getAttribute example_html ''data-config'' = Some ''a=1'' \<and>
   config example_html = [(''a'', Sc (Str ''1''))] \<and>
   trace (update demo example_html (InConfig [(''a'', Sc (Str ''1''))])) = trace example_html \<and>
   trace (update demo example_html (InConfig [(''a'', Sc (Str ''2''))])) =
     trace example_html @ [SetAttribute ''data-config'' ''a=2''] \<and>
   config (update demo example_html (InConfig [(''a'', Sc (Str ''2''))])) = [(''a'', Sc (Str ''2''))]"
proof -
  let ?i1 = "InConfig [(''a'', Sc (Str ''1''))]"
  let ?i2 = "InConfig [(''a'', Sc (Str ''2''))]"
  let ?n1 = "serialize demo
    (example_html\<lparr>config := spread [config example_html, input_config demo ?i1]\<rparr>)"
  let ?n2 = "serialize demo
    (example_html\<lparr>config := spread [config example_html, input_config demo ?i2]\<rparr>)"
  have h: "kind example_html = Html" "element example_html" by code_simp+
  have a: "attribute example_html = ''data-config''" by code_simp
  have g: "getAttribute example_html ''data-config'' = Some ''a=1''" by code_simp
  have c: "config example_html = [(''a'', Sc (Str ''1''))]" by code_simp
  have n1: "?n1 = ''a=1''" by code_simp
  have n2: "serialize demo (example_html\<lparr>config := [(''a'', Sc (Str ''2''))]\<rparr>) = ''a=2''"
    by code_simp
  have m2: "spread [config example_html, input_config demo ?i2] = [(''a'', Sc (Str ''2''))]"
    by code_simp
  have "getAttribute example_html (attribute example_html) = Some ?n1 \<longrightarrow>
        trace (update demo example_html ?i1) = trace example_html"
    using html_update_writes_if_changed[OF h, of demo ?i1] unfolding Let_def by blast
  then have 1: "trace (update demo example_html ?i1) = trace example_html"
    unfolding n1 a using g by blast
  have "config (update demo example_html ?i2) =
          spread [config example_html, input_config demo ?i2] \<and>
        (getAttribute example_html (attribute example_html) \<noteq> Some ?n2 \<longrightarrow>
         trace (update demo example_html ?i2) =
           trace example_html @ [SetAttribute (attribute example_html) ?n2])"
    using html_update_writes_if_changed[OF h, of demo ?i2] unfolding Let_def by blast
  then have 2: "config (update demo example_html ?i2) = [(''a'', Sc (Str ''2''))] \<and>
     trace (update demo example_html ?i2) =
       trace example_html @ [SetAttribute ''data-config'' ''a=2'']"
    unfolding m2 n2 a using g by simp
  from h g c 1 2 show ?thesis by blast
qed

subsection \<open>The locked address variant\<close>

lemma getStateFromHash_nonempty: "getStateFromHash h = Some t \<Longrightarrow> t \<noteq> []"
  by (induction h) (auto simp: Let_def split: if_splits)

lemma getStateFromHash_no_delim:
  "getStateFromHash h = Some t \<Longrightarrow> \<forall>ch \<in> set t. \<not> state_delim ch"
proof (induction h)
  case Nil
  then show ?case by simp
next
  case (Cons c cs)
  show ?case
  proof (cases "prefix ''state='' (c # cs) \<and> takeWhile (\<lambda>x. \<not> state_delim x) (drop 6 (c # cs)) \<noteq> []")
    case True
    with Cons.prems have "t = takeWhile (\<lambda>x. \<not> state_delim x) (drop 6 (c # cs))"
      by (simp add: Let_def)
    then show ?thesis by (auto dest: set_takeWhileD)
  next
    case False
    with Cons.prems have "getStateFromHash cs = Some t" by (auto simp: Let_def split: if_splits)
    then show ?thesis by (rule Cons.IH)
  qed
qed

lemma getStateFromHash_sublist:
  "getStateFromHash h = Some t \<Longrightarrow> sublist (''state='' @ t) h"
proof (induction h)
  case Nil
  then show ?case by simp
next
  case (Cons c cs)
  let ?m = "takeWhile (\<lambda>x. \<not> state_delim x) (drop 6 (c # cs))"
  show ?case
  proof (cases "prefix ''state='' (c # cs) \<and> ?m \<noteq> []")
    case True
    with Cons.prems have t: "t = ?m" by (simp add: Let_def)
    from True obtain r where r: "c # cs = ''state='' @ r" by (auto simp: prefix_def)
    then have "drop 6 (c # cs) = r" by simp
    then have "prefix t r" unfolding t by (metis takeWhile_dropWhile_id prefixI)
    then have "prefix (''state='' @ t) (c # cs)" unfolding r by (simp del: append.simps)
    then show ?thesis by (rule prefix_imp_sublist)
  next
    case False
    with Cons.prems have "getStateFromHash cs = Some t" by (auto simp: Let_def split: if_splits)
    then have "sublist (''state='' @ t) cs" by (rule Cons.IH)
    then show ?thesis by (simp add: sublist_Cons_right del: append.simps)
  qed
qed

lemma getStateFromHash_exists:
  "sublist (''state='' @ [ch]) h \<Longrightarrow> \<not> state_delim ch \<Longrightarrow> \<exists>t. getStateFromHash h = Some t"
proof (induction h)
  case Nil
  then show ?case by simp
next
  case (Cons c cs)
  let ?m = "takeWhile (\<lambda>x. \<not> state_delim x) (drop 6 (c # cs))"
  show ?case
  proof (cases "prefix ''state='' (c # cs) \<and> ?m \<noteq> []")
    case True
    then show ?thesis by (simp add: Let_def)
  next
    case False
    have "\<not> prefix (''state='' @ [ch]) (c # cs)"
    proof
      assume "prefix (''state='' @ [ch]) (c # cs)"
      then obtain r where r: "c # cs = (''state='' @ [ch]) @ r" by (auto simp: prefix_def)
      then have "prefix ''state='' (c # cs)" and "drop 6 (c # cs) = ch # r" by simp_all
      with Cons.prems(2) False show False by simp
    qed
    with Cons.prems(1) have "sublist (''state='' @ [ch]) cs"
      by (simp add: sublist_Cons_right del: append.simps)
    from Cons.IH[OF this Cons.prems(2)] obtain t where "getStateFromHash cs = Some t" ..
    with False show ?thesis by (auto simp: Let_def)
  qed
qed

lemma locked_update: "locked st \<Longrightarrow> update E st input = st"
  by (simp add: locked_def update_def url_update_def)

lemma locked_updateIfAbsent: "locked st \<Longrightarrow> updateIfAbsent E st input = st"
  by (simp add: updateIfAbsent_def Let_def locked_update split: prod.splits)

lemma locked_step:
  assumes "locked st"
  shows "locked (step E st op) \<and> stateValue (step E st op) = stateValue st \<and>
         config (step E st op) = config st"
proof (cases op)
  case (Join w)
  with assms show ?thesis
    by (cases w) (auto simp: join_def Let_def widget_update_def widget_onChanged_def locked_def)
next
  case (Navigate href hash)
  with assms show ?thesis
    by (auto simp: navigate_def hashchange_listener_def Let_def locked_def)
next
  case (WithDefaults input)
  with assms show ?thesis by (auto simp: withDefaults_def locked_def)
next
  case (Update input)
  with assms show ?thesis by (simp add: locked_update)
next
  case (UpdateIfAbsent input)
  with assms show ?thesis by (simp add: locked_updateIfAbsent)
next
  case (WidgetChanged w change)
  with assms show ?thesis by (simp add: locked_update on_widget_changed_def)
next
  case (Mutations ms)
  with assms show ?thesis by (simp add: locked_def)
qed

lemma locked_run:
  "locked st \<Longrightarrow>
   locked (run E st ops) \<and> stateValue (run E st ops) = stateValue st \<and>
   config (run E st ops) = config st"
  unfolding run_def
proof (induction ops arbitrary: st)
  case Nil
  then show ?case by simp
next
  case (Cons op ops)
  from locked_step[OF Cons.prems, of E op] Cons.IH[of "step E st op"]
  show ?case by simp
qed

lemma UrlConfigTransmitter_new_fields:
  "kind (UrlConfigTransmitter_new E href hash) = Url"
  "stateValue (UrlConfigTransmitter_new E href hash) = getStateFromHash hash"
  "initialHash (UrlConfigTransmitter_new E href hash) = hash"
  by (simp_all add: UrlConfigTransmitter_new_def Let_def new_transmitter_def)

lemma UrlConfigTransmitter_new_state:
  "getStateFromHash hash = Some token \<Longrightarrow>
   get_prop (config (UrlConfigTransmitter_new E href hash)) ''state'' = Sc (Str token)"
  by (auto simp: UrlConfigTransmitter_new_def Let_def new_transmitter_def get_prop_set_prop
      dest: getStateFromHash_nonempty)

lemma prefix_of_append_short:
  "prefix a (xs @ ys) \<Longrightarrow> length a \<le> length xs \<Longrightarrow> prefix a xs"
  by (auto simp: prefix_append)

lemma takeWhile_token:
  assumes "\<forall>ch \<in> set token. \<not> state_delim ch" and "rest = [] \<or> state_delim (hd rest)"
  shows "takeWhile (\<lambda>x. \<not> state_delim x) (token @ rest) = token"
proof (cases rest)
  case Nil
  with assms(1) show ?thesis by simp
next
  case (Cons r rs)
  with assms show ?thesis by (simp add: takeWhile_append2)
qed

lemma getStateFromHash_first:
  assumes "token \<noteq> []" and "\<forall>ch \<in> set token. \<not> state_delim ch"
    and "rest = [] \<or> state_delim (hd rest)"
    and "\<forall>ch. sublist (''state='' @ [ch]) (pre @ ''state='') \<longrightarrow> state_delim ch"
  shows "getStateFromHash (pre @ ''state='' @ token @ rest) = Some token"
  using assms(4)
proof (induction pre)
  case Nil
  have "takeWhile (\<lambda>x. \<not> state_delim x) (token @ rest) = token"
    using assms(2,3) by (rule takeWhile_token)
  with assms(1) show ?case by (simp add: Let_def)
next
  case (Cons c p)
  let ?h = "(c # p) @ ''state='' @ token @ rest"
  let ?m = "takeWhile (\<lambda>x. \<not> state_delim x) (drop 6 ?h)"
  have no: "\<not> (prefix ''state='' ?h \<and> ?m \<noteq> [])"
  proof
    assume a: "prefix ''state='' ?h \<and> ?m \<noteq> []"
    then obtain r where r: "?h = ''state='' @ r" by (auto simp: prefix_def)
    then have dr: "drop 6 ?h = r" by simp
    with a obtain x r' where x: "r = x # r'" and nd: "\<not> state_delim x"
      by (cases r) (auto split: if_splits)
    from r x have "prefix (''state='' @ [x]) (((c # p) @ ''state='') @ token @ rest)"
      by (simp add: prefix_def)
    then have "prefix (''state='' @ [x]) ((c # p) @ ''state='')"
      by (rule prefix_of_append_short) simp
    then have "sublist (''state='' @ [x]) ((c # p) @ ''state='')"
      by (rule prefix_imp_sublist)
    with Cons.prems nd show False by blast
  qed
  have "\<forall>ch. sublist (''state='' @ [ch]) (p @ ''state='') \<longrightarrow> state_delim ch"
  proof (intro allI impI)
    fix ch
    assume "sublist (''state='' @ [ch]) (p @ ''state='')"
    then have "sublist (''state='' @ [ch]) (c # (p @ ''state=''))"
      by (rule sublist_Cons_right[THEN iffD2, OF disjI2])
    then have "sublist (''state='' @ [ch]) ((c # p) @ ''state='')" by simp
    with Cons.prems show "state_delim ch" by blast
  qed
  then have "getStateFromHash (p @ ''state='' @ token @ rest) = Some token"
    by (rule Cons.IH)
  with no show ?case by (auto simp: Let_def)
qed

lemma found_state_is_frozen:
  assumes "getStateFromHash hash = Some token"
  shows "let init = UrlConfigTransmitter_new E href hash;
             fin = run E init ops
         in locked init \<and> locked fin \<and>
            stateValue fin = Some token \<and>
            config fin = config init \<and>
            (\<forall>input. update E fin input = fin) \<and>
            serialize E fin = ''state='' @ token"
proof -
  let ?init = "UrlConfigTransmitter_new E href hash"
  let ?fin = "run E ?init ops"
  from assms have ne: "token \<noteq> []" by (rule getStateFromHash_nonempty)
  have l0: "locked ?init"
    using assms ne by (simp add: locked_def UrlConfigTransmitter_new_fields)
  from locked_run[OF l0, of E ops]
  have l: "locked ?fin" and sv: "stateValue ?fin = Some token" and c: "config ?fin = config ?init"
    using assms by (simp_all add: UrlConfigTransmitter_new_fields)
  have u: "\<forall>input. update E ?fin input = ?fin" using l by (simp add: locked_update)
  have s: "serialize E ?fin = ''state='' @ token"
    using l sv by (simp add: serialize_def url_serialize_def locked_def del: append.simps)
  show ?thesis
    unfolding Let_def by (intro conjI) (fact l0, fact l, fact sv, fact c, fact u, fact s)
qed

text \<open>
  C3. Let the hash of the location contain \<^verbatim>\<open>state=<token>\<close>: the hash is some
  text \<open>pre\<close>, then \<^verbatim>\<open>state=\<close>, then a token that is not empty and holds none of
  \<^verbatim>\<open>&\<close>, \<^verbatim>\<open>#\<close>, \<^verbatim>\<open>+\<close>, then the end of the hash or one of these three
  characters; and let this be the state value of the hash, that is, no \<^verbatim>\<open>state=\<close>
  followed by a token character begins in \<open>pre\<close>. Then the transmitter that the
  constructor builds is locked from the start and stays locked through every sequence of
  method calls, widget notifications, location changes and mutation deliveries; after
  any such sequence the state value is the token, the explicit config is the one of the
  constructor, every further \<^verbatim>\<open>update\<close> returns the state as it is, and
  \<^verbatim>\<open>serialize\<close> returns \<^verbatim>\<open>state=\<close> followed by the token, whatever defaults were
  set in between.
\<close>

theorem locked_is_frozen:
  assumes "hash = pre @ ''state='' @ token @ rest"
    and "token \<noteq> []"
    and "\<forall>ch \<in> set token. \<not> state_delim ch"
    and "rest = [] \<or> state_delim (hd rest)"
    and "\<forall>ch. sublist (''state='' @ [ch]) (pre @ ''state='') \<longrightarrow> state_delim ch"
  shows "let st0 = UrlConfigTransmitter_new E href hash;
             st = run E st0 ops
         in locked st0 \<and> locked st \<and>
            stateValue st = Some token \<and>
            config st = config st0 \<and>
            (\<forall>input. update E st input = st) \<and>
            serialize E st = ''state='' @ token"
proof -
  have "getStateFromHash hash = Some token"
    unfolding assms(1) using assms(2-5) by (rule getStateFromHash_first)
  then show ?thesis by (rule found_state_is_frozen)
qed

theorem locked_is_frozen_witness:
  "''#state=abc123'' = ''#'' @ ''state='' @ ''abc123'' @ [] \<and>
   list_all (\<lambda>ch. \<not> state_delim ch) ''abc123'' \<and>
   config example_locked = [(''state'', Sc (Str ''abc123''))] \<and>
   config (run demo example_locked example_ops) = [(''state'', Sc (Str ''abc123''))] \<and>
   update demo (run demo example_locked example_ops) (InConfig [(''x'', Sc (Num 1))]) =
     run demo example_locked example_ops \<and>
   serialize demo (run demo example_locked example_ops) = ''state=abc123'' \<and>
   ''#a=1&state=tok+b'' = ''#a=1&'' @ ''state='' @ ''tok'' @ ''+b'' \<and>
   list_all (\<lambda>ch. \<not> state_delim ch) ''tok'' \<and> state_delim (hd ''+b'') \<and>
   serialize demo (UrlConfigTransmitter_new demo ''http://localhost/#a=1&state=tok+b''
                     ''#a=1&state=tok+b'') = ''state=tok''"
proof -
  have a: "''#state=abc123'' = ''#'' @ ''state='' @ ''abc123'' @ []" by simp
  have b: "\<forall>ch \<in> set ''abc123''. \<not> state_delim ch" by (simp add: state_delim_def)
  have c: "\<forall>ch. sublist (''state='' @ [ch]) (''#'' @ ''state='') \<longrightarrow> state_delim ch"
    by (simp add: sublist_Cons_right)
  have cfg: "config example_locked = [(''state'', Sc (Str ''abc123''))]" by code_simp
  have a2: "''#a=1&state=tok+b'' = ''#a=1&'' @ ''state='' @ ''tok'' @ ''+b''" by simp
  have b2: "\<forall>ch \<in> set ''tok''. \<not> state_delim ch" by (simp add: state_delim_def)
  have d2: "state_delim (hd ''+b'')" by (simp add: state_delim_def)
  have c2: "\<forall>ch. sublist (''state='' @ [ch]) (''#a=1&'' @ ''state='') \<longrightarrow> state_delim ch"
    by (auto simp: sublist_Cons_right state_delim_def)
  have 1: "config (run demo example_locked example_ops) = [(''state'', Sc (Str ''abc123''))] \<and>
     update demo (run demo example_locked example_ops) (InConfig [(''x'', Sc (Num 1))]) =
       run demo example_locked example_ops \<and>
     serialize demo (run demo example_locked example_ops) = ''state=abc123''"
    using locked_is_frozen[OF a _ b _ c, of demo "''http://localhost/page#state=abc123''"
        example_ops] cfg
    unfolding Let_def example_locked_def[symmetric] by simp
  have 2: "serialize demo (UrlConfigTransmitter_new demo ''http://localhost/#a=1&state=tok+b''
                     ''#a=1&state=tok+b'') = ''state=tok''"
    using locked_is_frozen[OF a2 _ b2 _ c2, of demo "''http://localhost/#a=1&state=tok+b''" "[]"]
      d2
    unfolding Let_def by (simp add: run_def)
  from b b2 have "list_all (\<lambda>ch. \<not> state_delim ch) ''abc123''"
    and "list_all (\<lambda>ch. \<not> state_delim ch) ''tok''"
    unfolding list_all_iff by blast+
  with a cfg 1 a2 d2 2 show ?thesis by blast
qed

subsection \<open>A change of the location while locked\<close>

lemma navigate_location:
  "location_hash (navigate st href hash) = hash \<and> location_href (navigate st href hash) = href"
  by (simp add: navigate_def hashchange_listener_def Let_def)


text \<open>
  C4. The locked transmitter of the example was built at the hash
  \<^verbatim>\<open>#state=abc123\<close>. When the location changes to the hash \<^verbatim>\<open>#x=1\<close>, the
  listener calls \<^verbatim>\<open>preventDefault\<close> and \<^verbatim>\<open>stopPropagation\<close> on the event and
  does nothing else: the location afterwards is \<^verbatim>\<open>#x=1\<close>, without the token.
\<close>

theorem hashchange_keeps_new_location:
  "stateValue example_locked = Some ''abc123'' \<and>
   location_hash example_locked = ''#state=abc123'' \<and>
   location_hash (navigate example_locked ''http://localhost/page#x=1'' ''#x=1'') = ''#x=1'' \<and>
   \<not> sublist ''state=abc123''
       (location_hash (navigate example_locked ''http://localhost/page#x=1'' ''#x=1'')) \<and>
   trace (navigate example_locked ''http://localhost/page#x=1'' ''#x=1'') =
     [PreventDefault, StopPropagation]"
  by code_simp

subsection \<open>\<^verbatim>\<open>updateIfAbsent\<close>\<close>

lemma stage_Nil [simp]: "stage cfg [] current = current"
  by (simp add: stage_def)

lemma stage_Cons [simp]:
  "stage cfg (key # ks) current = stage cfg ks (set_prop current key (get_prop cfg key))"
  by (simp add: stage_def)

lemma absent_loop_eq:
  "distinct ks \<Longrightarrow>
   absent_loop E cfg ks (current, shouldUpdate) =
     (stage cfg (filter (\<lambda>key. \<not> isNone E (get_prop cfg key) \<and>
                               isNone E (get_prop current key)) ks) current,
      shouldUpdate \<or>
      filter (\<lambda>key. \<not> isNone E (get_prop cfg key) \<and> isNone E (get_prop current key)) ks \<noteq> [])"
proof (induction ks arbitrary: current shouldUpdate)
  case Nil
  then show ?case by simp
next
  case (Cons key ks)
  from Cons.prems have d: "distinct ks" and nk: "key \<notin> set ks" by simp_all
  show ?case
  proof (cases "\<not> isNone E (get_prop cfg key) \<and> isNone E (get_prop current key)")
    case True
    let ?cur = "set_prop current key (get_prop cfg key)"
    have same: "filter (\<lambda>k. \<not> isNone E (get_prop cfg k) \<and> isNone E (get_prop ?cur k)) ks
              = filter (\<lambda>k. \<not> isNone E (get_prop cfg k) \<and> isNone E (get_prop current k)) ks"
      using nk by (intro filter_cong) (auto simp: get_prop_set_prop)
    from True show ?thesis
      by (simp add: Let_def Cons.IH[OF d] same)
  next
    case False
    then show ?thesis
      by (auto simp: Let_def Cons.IH[OF d])
  qed
qed

lemma get_prop_stage:
  "get_prop (stage cfg ks current) key =
     (if key \<in> set ks then get_prop cfg key else get_prop current key)"
  by (induction ks arbitrary: current) (auto simp: get_prop_set_prop)

lemma wf_stage: "wf_config current \<Longrightarrow> wf_config (stage cfg ks current)"
  by (induction ks arbitrary: current) (auto simp: wf_set_prop)

lemma keys_stage:
  "distinct ks \<Longrightarrow>
   keys (stage cfg ks current) = keys current @ filter (\<lambda>key. key \<notin> set (keys current)) ks"
proof (induction ks arbitrary: current)
  case Nil
  then show ?case by simp
next
  case (Cons k ks)
  from Cons.prems have d: "distinct ks" and nk: "k \<notin> set ks" by simp_all
  let ?cur = "set_prop current k (get_prop cfg k)"
  have same: "filter (\<lambda>key. key \<notin> set (keys ?cur)) ks
            = filter (\<lambda>key. key \<notin> set (keys current)) ks"
    using nk by (intro filter_cong) (auto simp: keys_set_prop)
  show ?case
    by (simp add: Cons.IH[OF d] same) (simp add: keys_set_prop)
qed

lemma assign_stage:
  assumes "wf_config snapshot" and "distinct ks"
  shows "assign snapshot (stage cfg ks snapshot) = stage cfg ks snapshot"
proof (rule config_eqI)
  have wf: "wf_config (stage cfg ks snapshot)" using assms(1) by (rule wf_stage)
  show "keys (assign snapshot (stage cfg ks snapshot)) = keys (stage cfg ks snapshot)"
    by (simp add: keys_assign[OF wf] keys_stage[OF assms(2)])
  show "get_prop (assign snapshot (stage cfg ks snapshot)) k = get_prop (stage cfg ks snapshot) k"
    for k
    by (simp add: get_prop_assign[OF wf] get_prop_stage keys_stage[OF assms(2)])
  show "wf_config (assign snapshot (stage cfg ks snapshot))"
    using assms(1) by (rule wf_assign)
qed

text \<open>
  C6, as the code has it, for every variant. Let the input be not falsy, with \<open>cfg\<close>
  its config. The staged keys are the keys of \<open>cfg\<close>, in the order of \<open>cfg\<close>, whose
  value in \<open>cfg\<close> is not none and whose value in the snapshot \<^verbatim>\<open>get()\<close> is none; the
  working copy is the snapshot with every staged key set to its value in \<open>cfg\<close>, every
  other key as in the snapshot, new keys at the end. If no key is staged,
  \<^verbatim>\<open>updateIfAbsent\<close> returns the state as it is: no call on a widget, the same
  explicit config. Otherwise it is one call of \<^verbatim>\<open>this.update\<close> with the working copy.
  Where that is the method of the base class, the new explicit config is the working
  copy and the trace grows by one \<^verbatim>\<open>update\<close> call per entry of the registry, in
  registry order, each carrying the working copy.
\<close>

theorem updateIfAbsent_calls_update_once:
  assumes "\<not> falsy input" and "wf_config (input_config E input)"
  shows "let cfg = input_config E input;
             snapshot = get st;
             staged = filter (\<lambda>key. \<not> isNone E (get_prop cfg key) \<and>
                                     isNone E (get_prop snapshot key)) (keys cfg);
             working = fold (\<lambda>key c. set_prop c key (get_prop cfg key)) staged snapshot;
             st' = updateIfAbsent E st input
         in (staged = [] \<longrightarrow> st' = st) \<and>
            (staged \<noteq> [] \<longrightarrow> st' = update E st (InConfig working)) \<and>
            (\<forall>key. get_prop working key =
               (if key \<in> set staged then get_prop cfg key else get_prop snapshot key)) \<and>
            keys working = keys snapshot @ filter (\<lambda>key. key \<notin> set (keys snapshot)) staged \<and>
            (staged \<noteq> [] \<and> uses_base_update st \<longrightarrow>
               config st' = working \<and>
               trace st' = trace st @ map (\<lambda>w. WidgetUpdate w working) (widgets st) \<and>
               widgets st' = widgets st \<and>
               defaultConfig st' = defaultConfig st)"
proof -
  let ?cfg = "input_config E input"
  let ?snap = "get st"
  let ?staged = "filter (\<lambda>key. \<not> isNone E (get_prop ?cfg key) \<and>
                                 isNone E (get_prop ?snap key)) (keys ?cfg)"
  let ?new = "stage ?cfg ?staged ?snap"
  let ?fin = "updateIfAbsent E st input"
  from assms(2) have d: "distinct (keys ?cfg)" by (simp add: wf_config_def keys_def)
  then have ds: "distinct ?staged" by simp
  have loop: "absent_loop E ?cfg (keys ?cfg) (?snap, False) = (?new, ?staged \<noteq> [])"
    by (simp add: absent_loop_eq[OF d])
  have none: "?staged = [] \<longrightarrow> ?fin = st"
    using assms(1) by (simp add: updateIfAbsent_def Let_def loop)
  have once: "?staged \<noteq> [] \<longrightarrow> ?fin = update E st (InConfig ?new)"
    using assms(1) by (simp add: updateIfAbsent_def Let_def loop)
  have vals: "\<forall>key. get_prop ?new key =
               (if key \<in> set ?staged then get_prop ?cfg key else get_prop ?snap key)"
    by (simp add: get_prop_stage del: set_filter)
  have ks: "keys ?new = keys ?snap @ filter (\<lambda>key. key \<notin> set (keys ?snap)) ?staged"
    by (rule keys_stage[OF ds])
  have merged: "spread [?snap, ?new] = ?new"
    by (simp add: spread_get assign_stage[OF wf_get ds])
  have fan: "?staged \<noteq> [] \<and> uses_base_update st \<longrightarrow>
               config ?fin = ?new \<and>
               trace ?fin = trace st @ map (\<lambda>w. WidgetUpdate w ?new) (widgets st) \<and>
               widgets ?fin = widgets st \<and>
               defaultConfig ?fin = defaultConfig st"
  proof
    assume a: "?staged \<noteq> [] \<and> uses_base_update st"
    with once have "?fin = base_update E st (InConfig ?new)"
      by (simp add: update_uses_base)
    also have "\<dots> = st\<lparr>config := ?new,
        trace := trace st @ map (\<lambda>w. WidgetUpdate w ?new) (widgets st)\<rparr>"
      by (simp add: base_update_eq merged)
    finally have "?fin = st\<lparr>config := ?new,
        trace := trace st @ map (\<lambda>w. WidgetUpdate w ?new) (widgets st)\<rparr>" .
    then show "config ?fin = ?new \<and>
               trace ?fin = trace st @ map (\<lambda>w. WidgetUpdate w ?new) (widgets st) \<and>
               widgets ?fin = widgets st \<and>
               defaultConfig ?fin = defaultConfig st"
      by simp
  qed
  show ?thesis
    unfolding Let_def stage_def[symmetric]
    by (intro conjI) (fact none, fact once, fact vals, fact ks, fact fan)
qed

theorem updateIfAbsent_calls_update_once_witness:
  "\<not> falsy (InConfig [(''year'', Sc (Num 1999))]) \<and> \<not> falsy (InConfig example_absent) \<and>
   uses_base_update example_simple \<and>
   wf_config (input_config demo (InConfig [(''year'', Sc (Num 1999))])) \<and>
   wf_config (input_config demo (InConfig example_absent)) \<and>
   updateIfAbsent demo example_simple (InConfig [(''year'', Sc (Num 1999))]) = example_simple \<and>
   updateIfAbsent demo example_simple (InConfig example_absent) =
     update demo example_simple
       (InConfig [(''units'', Sc (Str ''kg'')), (''year'', Sc (Num 2020)),
                  (''scope'', Sc (Str ''full''))]) \<and>
   config (updateIfAbsent demo example_simple (InConfig example_absent)) =
     [(''units'', Sc (Str ''kg'')), (''year'', Sc (Num 2020)), (''scope'', Sc (Str ''full''))] \<and>
   trace (updateIfAbsent demo example_simple (InConfig example_absent)) =
     trace example_simple @
     [WidgetUpdate 1 [(''units'', Sc (Str ''kg'')), (''year'', Sc (Num 2020)),
                      (''scope'', Sc (Str ''full''))],
      WidgetUpdate 2 [(''units'', Sc (Str ''kg'')), (''year'', Sc (Num 2020)),
                      (''scope'', Sc (Str ''full''))]]"
proof -
  let ?i1 = "InConfig [(''year'', Sc (Num 1999))]"
  let ?i2 = "InConfig example_absent"
  have f: "\<not> falsy ?i1" "\<not> falsy ?i2" by simp_all
  have u: "uses_base_update example_simple" by code_simp
  have wf: "wf_config (input_config demo ?i1)" "wf_config (input_config demo ?i2)"
    by code_simp+
  have s1: "filter (\<lambda>key. \<not> isNone demo (get_prop (input_config demo ?i1) key) \<and>
                          isNone demo (get_prop (get example_simple) key))
              (keys (input_config demo ?i1)) = []"
    by code_simp
  have s2: "filter (\<lambda>key. \<not> isNone demo (get_prop (input_config demo ?i2) key) \<and>
                          isNone demo (get_prop (get example_simple) key))
              (keys (input_config demo ?i2)) = [''scope'']"
    by code_simp
  have c2: "fold (\<lambda>key c. set_prop c key (get_prop (input_config demo ?i2) key)) [''scope'']
              (get example_simple) =
            [(''units'', Sc (Str ''kg'')), (''year'', Sc (Num 2020)), (''scope'', Sc (Str ''full''))]"
    by code_simp
  have w: "widgets example_simple = [1, 2]" by code_simp
  have 1: "updateIfAbsent demo example_simple ?i1 = example_simple"
    using updateIfAbsent_calls_update_once[OF f(1) wf(1), of example_simple]
    unfolding Let_def s1 by simp
  have 2: "updateIfAbsent demo example_simple ?i2 =
       update demo example_simple
         (InConfig [(''units'', Sc (Str ''kg'')), (''year'', Sc (Num 2020)),
                    (''scope'', Sc (Str ''full''))]) \<and>
     config (updateIfAbsent demo example_simple ?i2) =
       [(''units'', Sc (Str ''kg'')), (''year'', Sc (Num 2020)), (''scope'', Sc (Str ''full''))] \<and>
     trace (updateIfAbsent demo example_simple ?i2) =
       trace example_simple @
       [WidgetUpdate 1 [(''units'', Sc (Str ''kg'')), (''year'', Sc (Num 2020)),
                      (''scope'', Sc (Str ''full''))],
        WidgetUpdate 2 [(''units'', Sc (Str ''kg'')), (''year'', Sc (Num 2020)),
                      (''scope'', Sc (Str ''full''))]]"
    using updateIfAbsent_calls_update_once[OF f(2) wf(2), of example_simple] u
    unfolding Let_def s2 c2 w by auto
  from f u wf 1 2 show ?thesis by blast
qed

text \<open>
  C6, as the claim has it, fails where \<^verbatim>\<open>update\<close> is overridden. The key \<^verbatim>\<open>n\<close>
  of the input \<^verbatim>\<open>{n: 7}\<close> is staged in both examples, each with one joined widget.
  On the attribute variant with a host element whose attribute holds \<^verbatim>\<open>a=1\<close> the
  only call is \<^verbatim>\<open>setAttribute\<close> with \<^verbatim>\<open>a=1&n=7\<close>: no widget is called. On the
  locked address variant nothing happens at all.
\<close>

theorem updateIfAbsent_without_fan_out_counterexample:
  "\<not> falsy (InConfig [(''n'', Sc (Num 7))]) \<and>
   \<not> isNone demo (get_prop [(''n'', Sc (Num 7))] ''n'') \<and>
   widgets example_html_joined = [1] \<and>
   isNone demo (get_prop (get example_html_joined) ''n'') \<and>
   trace (updateIfAbsent demo example_html_joined (InConfig [(''n'', Sc (Num 7))])) =
     trace example_html_joined @ [SetAttribute ''data-config'' ''a=1&n=7''] \<and>
   widgets example_locked_joined = [1] \<and>
   isNone demo (get_prop (get example_locked_joined) ''n'') \<and>
   updateIfAbsent demo example_locked_joined (InConfig [(''n'', Sc (Num 7))]) =
     example_locked_joined"
proof -
  have l: "locked example_locked_joined" by code_simp
  have "\<not> falsy (InConfig [(''n'', Sc (Num 7))])" by simp
  moreover have "\<not> isNone demo (get_prop [(''n'', Sc (Num 7))] ''n'')" by code_simp
  moreover have "widgets example_html_joined = [1]" by code_simp
  moreover have "isNone demo (get_prop (get example_html_joined) ''n'')" by code_simp
  moreover have "trace (updateIfAbsent demo example_html_joined (InConfig [(''n'', Sc (Num 7))])) =
     trace example_html_joined @ [SetAttribute ''data-config'' ''a=1&n=7'']"
    by code_simp
  moreover have "widgets example_locked_joined = [1]" by code_simp
  moreover have "isNone demo (get_prop (get example_locked_joined) ''n'')" by code_simp
  moreover have "updateIfAbsent demo example_locked_joined (InConfig [(''n'', Sc (Num 7))]) =
     example_locked_joined"
    using l by (rule locked_updateIfAbsent)
  ultimately show ?thesis by blast
qed

end
